theory Spec2Isabelle
  imports Complex_Main "HOL-Library.AList"
begin

section \<open>JavaScript values, objects and errors\<close>

text \<open>
  The program is JavaScript. A number is modelled as a real: every number below is
  passed through unchanged (nothing computes with it), so NaN and the infinities are
  left out. A property that may be missing (\<open>undefined\<close>) is an \<open>option\<close>.
\<close>

type_synonym number = real

datatype jsvalue = Undefined | Num number | Str string

text \<open>
  A plain object with string keys is an association list in the order of
  \<open>Object.keys\<close>: the order in which the keys were first assigned. (JavaScript lists
  keys that are array indices first; no key built by this program is one.) The
  assignment \<open>obj[k] = v\<close> is \<open>AList.update k v obj\<close>: it overwrites in place or
  appends. The read \<open>obj[k]\<close> is \<open>map_of obj k\<close>, \<open>None\<close> for \<open>undefined\<close>.
\<close>

type_synonym 'v object = "(string \<times> 'v) list"

text \<open>
  A rejected promise or a thrown exception is the \<open>Inl\<close> of a sum. An error object
  may carry a \<open>code\<close> property (\<open>ENOENT\<close>, \<open>EACCES\<close>, ...); reading a property of
  \<open>undefined\<close> throws a TypeError; anything else is \<open>Failure\<close>.
\<close>

datatype error = ErrorWithCode string | TypeError | Failure

fun code :: "error \<Rightarrow> string option" where
  "code (ErrorWithCode c) = Some c"
| "code TypeError = None"
| "code Failure = None"

text \<open>\<open>forEach\<close> over a list of keys; a callback that throws ends the loop.\<close>

fun forEach :: "string list \<Rightarrow> (string \<Rightarrow> 's \<Rightarrow> error + 's) \<Rightarrow> 's \<Rightarrow> error + 's" where
  "forEach [] f s = Inr s"
| "forEach (k # ks) f s = (case f k s of Inl e \<Rightarrow> Inl e | Inr s' \<Rightarrow> forEach ks f s')"

text \<open>String concatenation with a non-negative integer prints it in decimal.\<close>

definition digit :: "nat \<Rightarrow> char" where
  "digit d =
     (if d = 0 then CHR ''0'' else if d = 1 then CHR ''1'' else if d = 2 then CHR ''2''
      else if d = 3 then CHR ''3'' else if d = 4 then CHR ''4'' else if d = 5 then CHR ''5''
      else if d = 6 then CHR ''6'' else if d = 7 then CHR ''7'' else if d = 8 then CHR ''8''
      else CHR ''9'')"

fun string_of_nat :: "nat \<Rightarrow> string" where
  "string_of_nat n =
     (if n < 10 then [digit n] else string_of_nat (n div 10) @ [digit (n mod 10)])"

section \<open>ProcessState\<close>

record resources =
  cpu :: number
  memory :: number

text \<open>An element of the process list answered by \<open>pm2.list()\<close>.\<close>

record pm2_env =
  status :: string
  restart_time :: number

record processEntry =
  name :: string
  pm_id :: nat
  pm2_env :: pm2_env
  monit :: resources

text \<open>
  The container itself. The constructor copies five properties of the object it is
  given; one that the object does not have is copied as \<open>undefined\<close>.
\<close>

record ProcessState =
  name :: string
  status :: string
  resources :: "resources option"
  restarts :: "number option"
  pid :: "number option"

definition ProcessState_new :: "'a ProcessState_scheme \<Rightarrow> ProcessState" where
  "ProcessState_new processObject =
     \<lparr>name = name processObject,
      status = status processObject,
      resources = resources processObject,
      restarts = restarts processObject,
      pid = pid processObject\<rparr>"

text \<open>
  \<open>equals\<close> returns \<open>anotherState && anotherState.status === this.status\<close>; its
  callers only test the result for truth.
\<close>

definition equals :: "ProcessState \<Rightarrow> ProcessState option \<Rightarrow> bool" where
  "equals this anotherState =
     (case anotherState of None \<Rightarrow> False | Some a \<Rightarrow> status a = status this)"

section \<open>PM2Tracker\<close>

text \<open>The \<open>process\<close> property of a \<open>process:event\<close> message of the bus.\<close>

record processObject = ProcessState +
  pm_id :: nat

record bus_event =
  process :: processObject

datatype bus = Bus

record PM2Tracker =
  bus :: "bus option"
  processes :: "ProcessState object"

record changeEvent =
  processID :: string
  oldState :: "ProcessState option"
  newState :: ProcessState

definition PM2Tracker_new :: PM2Tracker where
  "PM2Tracker_new = \<lparr>bus = None, processes = []\<rparr>"

text \<open>
  \<open>getProcessID\<close> reads the \<open>name\<close> and the \<open>pm_id\<close> of the object it is given, a
  list entry or the process of a bus event.
\<close>

definition getProcessID :: "string \<Rightarrow> nat \<Rightarrow> string" where
  "getProcessID processName processIndex = processName @ ''-'' @ string_of_nat processIndex"

definition generateProcessMap :: "processEntry list \<Rightarrow> ProcessState object" where
  "generateProcessMap processList =
     fold (\<lambda>processEntry processes.
             AList.update
               (getProcessID (processEntry.name processEntry) (processEntry.pm_id processEntry))
               (ProcessState_new
                  \<lparr>name = processEntry.name processEntry,
                   status = pm2_env.status (pm2_env processEntry),
                   resources = Some (monit processEntry),
                   restarts = Some (restart_time (pm2_env processEntry)),
                   pid = None\<rparr>)
               processes)
          processList []"

definition loadProcessList :: "PM2Tracker \<Rightarrow> processEntry list \<Rightarrow> PM2Tracker" where
  "loadProcessList t processList = t\<lparr>processes := generateProcessMap processList\<rparr>"

text \<open>
  The handler of a bus event returns the tracker with its cache updated and the
  \<open>processStateChanged\<close> notification it emits, if it emits one.
\<close>

definition handleProcessEvent :: "PM2Tracker \<Rightarrow> bus_event \<Rightarrow> PM2Tracker \<times> changeEvent option" where
  "handleProcessEvent t event =
     (let processID = getProcessID (name (process event)) (pm_id (process event));
          oldState = map_of (processes t) processID;
          newState = ProcessState_new (process event);
          t' = t\<lparr>processes := AList.update processID newState (processes t)\<rparr>
      in if (case oldState of None \<Rightarrow> True | Some old \<Rightarrow> \<not> equals old (Some newState))
         then (t', Some \<lparr>processID = processID, oldState = oldState, newState = newState\<rparr>)
         else (t', None))"

fun handleAll :: "PM2Tracker \<Rightarrow> bus_event list \<Rightarrow> PM2Tracker \<times> changeEvent option list" where
  "handleAll t [] = (t, [])"
| "handleAll t (event # events) =
     (let (t1, emitted) = handleProcessEvent t event;
          (t2, rest) = handleAll t1 events
      in (t2, emitted # rest))"

text \<open>
  The listener that \<open>start\<close> registers on the bus when it stores the bus: it hands
  every \<open>process:event\<close> that the bus emits to the handler. The tracker itself never
  removes the listener.
\<close>

definition dispatch :: "PM2Tracker \<Rightarrow> bus_event \<Rightarrow> PM2Tracker \<times> changeEvent option" where
  "dispatch t event = (if bus t = None then (t, None) else handleProcessEvent t event)"

definition dispatchAll :: "PM2Tracker \<Rightarrow> bus_event list \<Rightarrow> PM2Tracker \<times> changeEvent option list" where
  "dispatchAll t events =
     (if bus t = None then (t, map (\<lambda>_. None) events) else handleAll t events)"

text \<open>
  What the process manager answers while the tracker starts: the outcome of
  \<open>connect\<close>, of \<open>launchBus\<close>, the bus events that arrive between the registration of
  the listener and the answer of \<open>list\<close>, and that answer.
\<close>

record pm2_answers =
  connectAsync :: "error option"
  launchBusAsync :: "error + bus"
  early_events :: "bus_event list"
  listAsync :: "error + processEntry list"

definition PM2Tracker_start :: "PM2Tracker \<Rightarrow> pm2_answers \<Rightarrow> PM2Tracker \<times> changeEvent option list \<times> (error + unit)" where
  "PM2Tracker_start t pm2 =
     (case connectAsync pm2 of
        Some e \<Rightarrow> (t, [], Inl e)
      | None \<Rightarrow>
          (case launchBusAsync pm2 of
             Inl e \<Rightarrow> (t, [], Inl e)
           | Inr b \<Rightarrow>
               (let (t1, emitted) = dispatchAll (t\<lparr>bus := Some b\<rparr>) (early_events pm2)
                in case listAsync pm2 of
                     Inl e \<Rightarrow> (t1, emitted, Inl e)
                   | Inr processList \<Rightarrow> (loadProcessList t1 processList, emitted, Inr ()))))"

text \<open>
  Modelled from the spec: the client of the process manager (the \<open>pm2\<close> module) and
  its event bus are not among the sources. Of the client's state the model keeps
  whether the socket of the bus is open; \<open>launchBus\<close> opens it.
\<close>

record pm2_client =
  busSocketOpen :: bool


text \<open>
  Modelled from the spec: the event bus of the client, which is not among the sources.
  It emits a \<open>process:event\<close> to its listeners only while its socket is open; a
  disconnected bus delivers nothing.
\<close>

definition deliver :: "pm2_client \<Rightarrow> PM2Tracker \<Rightarrow> bus_event \<Rightarrow> PM2Tracker \<times> changeEvent option" where
  "deliver client t event = (if busSocketOpen client then dispatch t event else (t, None))"



definition getCachedProcessMap :: "PM2Tracker \<Rightarrow> ProcessState object" where
  "getCachedProcessMap t = processes t"

definition getProcessMap :: "error + processEntry list \<Rightarrow> error + ProcessState object" where
  "getProcessMap listAnswer =
     (case listAnswer of
        Inl e \<Rightarrow> Inl e
      | Inr processList \<Rightarrow> Inr (generateProcessMap processList))"

text \<open>
  \<open>getPM2State\<close> reads the environment, the PID file and the resource usage of the
  PID. \<open>Number_trim\<close> stands for \<open>Number(pidfileContent.trim())\<close>; \<open>stat\<close> answers
  an error, or the usage, which may be \<open>null\<close>.
\<close>

record process_env =
  HOME :: string
  PM2_HOME :: "string option"

text \<open>
  The directory of the PID file: \<open>HOME\<close>, a slash, and \<open>PM2_HOME || '.pm2'\<close> (a
  missing or an empty \<open>PM2_HOME\<close> gives the default).
\<close>

definition PM2_HOME_dir :: "process_env \<Rightarrow> string" where
  "PM2_HOME_dir env =
     HOME env @ ''/'' @
       (case PM2_HOME env of None \<Rightarrow> ''.pm2'' | Some h \<Rightarrow> if h = [] then ''.pm2'' else h)"

definition getPM2State ::
  "process_env \<Rightarrow> (string \<Rightarrow> error + string) \<Rightarrow> (string \<Rightarrow> number) \<Rightarrow>
   (number \<Rightarrow> error + resources option) \<Rightarrow> error + ProcessState" where
  "getPM2State env readFile Number_trim stat =
     (case readFile (PM2_HOME_dir env @ ''/pm2.pid'') of
        Inl e \<Rightarrow> Inl e
      | Inr pidfileContent \<Rightarrow>
             (let PM2PID = Number_trim pidfileContent;
                  caught = (case stat PM2PID of
                              Inl e \<Rightarrow> if code e = Some ''ENOENT'' then Inr None else Inl e
                            | Inr usageInfo \<Rightarrow> Inr usageInfo)
              in case caught of
                   Inl e \<Rightarrow> Inl e
                 | Inr (Some usageInfo) \<Rightarrow>
                     Inr (ProcessState_new
                            \<lparr>name = ''PM2'', status = ''online'', resources = Some usageInfo,
                             restarts = Some 0, pid = Some PM2PID\<rparr>)
                 | Inr None \<Rightarrow>
                     Inr (ProcessState_new
                            \<lparr>name = ''PM2'', status = ''offline'',
                             resources = Some \<lparr>cpu = 0, memory = 0\<rparr>,
                             restarts = Some 0, pid = Some 0\<rparr>)))"

section \<open>ZabbixDataProvider\<close>

text \<open>
  The sender is the transport: given a batch it answers an error or nothing. Discovery
  items and removal specifications are flat objects of strings.
\<close>

type_synonym batch = "jsvalue object"

type_synonym discoveryItem = "string object"

record ZabbixDataProvider =
  sender :: "batch \<Rightarrow> error option"
  discoveryItems :: "discoveryItem list"

record discoveryData =
  data :: "discoveryItem list"

definition ZabbixDataProvider_new ::
  "(batch \<Rightarrow> error option) \<Rightarrow> discoveryItem list option \<Rightarrow> ZabbixDataProvider" where
  "ZabbixDataProvider_new s items =
     \<lparr>sender = s, discoveryItems = (case items of None \<Rightarrow> [] | Some l \<Rightarrow> l)\<rparr>"

definition send :: "ZabbixDataProvider \<Rightarrow> batch \<Rightarrow> error + unit" where
  "send p vals = (case sender p vals of Some e \<Rightarrow> Inl e | None \<Rightarrow> Inr ())"

definition getDiscoveryData :: "ZabbixDataProvider \<Rightarrow> discoveryData" where
  "getDiscoveryData p = \<lparr>data = discoveryItems p\<rparr>"

definition addDiscoveryItem :: "ZabbixDataProvider \<Rightarrow> discoveryItem \<Rightarrow> ZabbixDataProvider" where
  "addDiscoveryItem p item = p\<lparr>discoveryItems := discoveryItems p @ [item]\<rparr>"

definition removeDiscoveryItems :: "ZabbixDataProvider \<Rightarrow> string object \<Rightarrow> ZabbixDataProvider" where
  "removeDiscoveryItems p removalSpecification =
     p\<lparr>discoveryItems :=
         filter (\<lambda>discoveryItem.
                   \<not> list_all (\<lambda>removalKey.
                                 map_of removalSpecification removalKey = map_of discoveryItem removalKey)
                              (map fst removalSpecification))
                (discoveryItems p)\<rparr>"

section \<open>PM2ZabbixMonitor\<close>

datatype periodic = SendProcessList | SendPM2Status

record options =
  monitor :: bool
  processListInterval :: "number option"
  processManagerInterval :: "number option"

text \<open>
  The monitor holds the tracker and the data provider; \<open>listening\<close> says that the
  listener of \<open>processStateChanged\<close> is registered on the tracker, \<open>timers\<close> lists the
  interval timers that are armed.
\<close>

record PM2ZabbixMonitor =
  tracker :: PM2Tracker
  dataProvider :: ZabbixDataProvider
  options :: options
  listening :: bool
  timers :: "(periodic \<times> number option) list"

text \<open>\<open>interval || 15000\<close>: a missing interval and the interval 0 give the default.\<close>

definition or_default :: "number option \<Rightarrow> number option" where
  "or_default interval =
     (case interval of None \<Rightarrow> Some 15000 | Some n \<Rightarrow> if n = 0 then Some 15000 else Some n)"

definition PM2ZabbixMonitor_new ::
  "PM2Tracker \<Rightarrow> ZabbixDataProvider \<Rightarrow> options option \<Rightarrow> PM2ZabbixMonitor" where
  "PM2ZabbixMonitor_new t p opts =
     (let given = (case opts of
                     None \<Rightarrow> \<lparr>monitor = False, processListInterval = None,
                               processManagerInterval = None\<rparr>
                   | Some og \<Rightarrow> og);
          applied = given\<lparr>processListInterval := or_default (processListInterval given),
                          processManagerInterval := or_default (processManagerInterval given)\<rparr>
      in \<lparr>tracker = t, dataProvider = p, options = applied,
          listening = monitor applied, timers = []\<rparr>)"

definition getDataKey :: "string \<Rightarrow> ProcessState \<Rightarrow> string \<Rightarrow> string" where
  "getDataKey procID processState dataItem =
     ''pm2.processes['' @ procID @ '','' @ dataItem @ '']''"

definition getManagerKey :: "string \<Rightarrow> string" where
  "getManagerKey dataItem = ''pm2.'' @ dataItem"

definition of_property :: "number option \<Rightarrow> jsvalue" where
  "of_property v = (case v of None \<Rightarrow> Undefined | Some n \<Rightarrow> Num n)"

text \<open>
  The listener of \<open>processStateChanged\<close>: the batch it hands to the provider, and the
  outcome of the sending.
\<close>

definition onProcessStateChanged :: "ZabbixDataProvider \<Rightarrow> changeEvent \<Rightarrow> batch \<times> (error + unit)" where
  "onProcessStateChanged p changeEvent =
     (let statusKey = getDataKey (processID changeEvent) (newState changeEvent) ''status'';
          statusObject = AList.update statusKey (Str (status (newState changeEvent))) []
      in (statusObject, send p statusObject))"

definition registerProcessForDiscovery ::
  "ProcessState object \<Rightarrow> string \<Rightarrow> ZabbixDataProvider \<Rightarrow> error + ZabbixDataProvider" where
  "registerProcessForDiscovery processMap procID p =
     (case map_of processMap procID of
        None \<Rightarrow> Inl TypeError
      | Some processState \<Rightarrow>
          Inr (addDiscoveryItem p
                 [(''{#PROCESS_ID}'', procID), (''{#PROCESS_NAME}'', name processState)]))"

text \<open>
  \<open>start\<close> of the monitor returns the monitor, the batches that the listener sent
  while the tracker started, and the outcome of the promise.
\<close>

definition PM2ZabbixMonitor_start ::
  "PM2ZabbixMonitor \<Rightarrow> pm2_answers \<Rightarrow> PM2ZabbixMonitor \<times> batch list \<times> (error + unit)" where
  "PM2ZabbixMonitor_start m pm2 =
     (let (t, emitted, started) = PM2Tracker_start (tracker m) pm2;
          sent = (if listening m
                  then map (\<lambda>changeEvent. fst (onProcessStateChanged (dataProvider m) changeEvent))
                         (List.map_filter id emitted)
                  else []);
          m1 = m\<lparr>tracker := t\<rparr>
      in case started of
           Inl e \<Rightarrow> (m1, sent, Inl e)
         | Inr _ \<Rightarrow>
             (let processMap = getCachedProcessMap t
              in case forEach (map fst processMap) (registerProcessForDiscovery processMap)
                        (dataProvider m) of
                   Inl e \<Rightarrow> (m1, sent, Inl e)
                 | Inr p \<Rightarrow>
                     (m1\<lparr>dataProvider := p,
                         timers := (if monitor (options m)
                                    then [(SendProcessList, processListInterval (options m)),
                                          (SendPM2Status, processManagerInterval (options m))]
                                    else [])\<rparr>,
                      sent, Inr ())))"

text \<open>
  The callback of \<open>sendProcessList\<close> for one key of the process map: four
  assignments to the data object.
\<close>

definition putProcess :: "ProcessState object \<Rightarrow> string \<Rightarrow> batch \<Rightarrow> error + batch" where
  "putProcess processMap procID dataObject =
     (case map_of processMap procID of
        None \<Rightarrow> Inl TypeError
      | Some processState \<Rightarrow>
          (case resources processState of
             None \<Rightarrow> Inl TypeError
           | Some r \<Rightarrow>
               Inr (AList.update (getDataKey procID processState ''restarts'')
                      (of_property (restarts processState))
                   (AList.update (getDataKey procID processState ''memory'') (Num (memory r))
                   (AList.update (getDataKey procID processState ''cpu'') (Num (cpu r))
                   (AList.update (getDataKey procID processState ''status'')
                      (Str (status processState)) dataObject))))))"

text \<open>
  Both senders return the batches handed to the transport (none, or one) and the
  outcome of the promise.
\<close>

definition sendProcessList ::
  "PM2ZabbixMonitor \<Rightarrow> error + processEntry list \<Rightarrow> batch list \<times> (error + unit)" where
  "sendProcessList m listAnswer =
     (case getProcessMap listAnswer of
        Inl e \<Rightarrow> ([], Inl e)
      | Inr processMap \<Rightarrow>
          (case forEach (map fst processMap) (putProcess processMap) [] of
             Inl e \<Rightarrow> ([], Inl e)
           | Inr dataObject \<Rightarrow> ([dataObject], send (dataProvider m) dataObject)))"

definition sendPM2Status ::
  "PM2ZabbixMonitor \<Rightarrow> error + ProcessState \<Rightarrow> batch list \<times> (error + unit)" where
  "sendPM2Status m pm2State =
     (case pm2State of
        Inl e \<Rightarrow> ([], Inl e)
      | Inr processState \<Rightarrow>
          (case resources processState of
             None \<Rightarrow> ([], Inl TypeError)
           | Some r \<Rightarrow>
               (let dataObject =
                      AList.update (getManagerKey ''pid'') (of_property (pid processState))
                     (AList.update (getManagerKey ''memory'') (Num (memory r))
                     (AList.update (getManagerKey ''cpu'') (Num (cpu r))
                     (AList.update (getManagerKey ''status'') (Str (status processState)) [])))
                in ([dataObject], send (dataProvider m) dataObject))))"

section \<open>The words of the specification\<close>

text \<open>
  The specification's rule for notifications, on statuses alone: given the last status
  seen per identity, an event fires when that status is absent or differs from the
  event's, and the event's status becomes the last one seen.
\<close>

fun status_changes :: "(string \<rightharpoonup> string) \<Rightarrow> (string \<times> string) list \<Rightarrow> bool list" where
  "status_changes seen [] = []"
| "status_changes seen ((identity, s) # rest) =
     (seen identity \<noteq> Some s) # status_changes (seen(identity \<mapsto> s)) rest"

text \<open>
  The specification's keys of one process: for each of the four fields, the key
  \<open>pm2.processes[\<close>, the identity, a comma, the field and \<open>]\<close>, mapped to the
  value of the field.
\<close>

definition field_names :: "string set" where
  "field_names = {''status'', ''cpu'', ''memory'', ''restarts''}"

definition process_fields :: "string \<Rightarrow> ProcessState \<Rightarrow> batch" where
  "process_fields identity st =
     [(''pm2.processes['' @ identity @ '','' @ ''status'' @ '']'', Str (status st)),
      (''pm2.processes['' @ identity @ '','' @ ''cpu'' @ '']'',
         case resources st of None \<Rightarrow> Undefined | Some r \<Rightarrow> Num (cpu r)),
      (''pm2.processes['' @ identity @ '','' @ ''memory'' @ '']'',
         case resources st of None \<Rightarrow> Undefined | Some r \<Rightarrow> Num (memory r)),
      (''pm2.processes['' @ identity @ '','' @ ''restarts'' @ '']'',
         case restarts st of None \<Rightarrow> Undefined | Some n \<Rightarrow> Num n)]"

text \<open>The specification's \<open>pid\<close>: a non-negative integer, never missing.\<close>

definition non_negative_integer :: "number option \<Rightarrow> bool" where
  "non_negative_integer v = (case v of None \<Rightarrow> False | Some n \<Rightarrow> n \<in> \<nat>)"

section \<open>Examples\<close>

definition web :: "nat \<Rightarrow> processEntry" where
  "web i = \<lparr>processEntry.name = ''web'', processEntry.pm_id = i,
            pm2_env = \<lparr>pm2_env.status = ''online'', restart_time = 0\<rparr>,
            monit = \<lparr>cpu = 1.5, memory = 1024\<rparr>\<rparr>"

definition web_event :: "nat \<Rightarrow> string \<Rightarrow> number \<Rightarrow> bus_event" where
  "web_event i s r =
     \<lparr>process = \<lparr>name = ''web'', status = s, resources = None, restarts = Some r,
                 pid = None, pm_id = i\<rparr>\<rparr>"

definition pm2_up :: "processEntry list \<Rightarrow> pm2_answers" where
  "pm2_up processList =
     \<lparr>connectAsync = None, launchBusAsync = Inr Bus, early_events = [],
      listAsync = Inr processList\<rparr>"

definition accepting :: "batch \<Rightarrow> error option" where
  "accepting vals = None"

text \<open>A transport that refuses every batch without the key \<open>pm2.status\<close>.\<close>

definition wants_pm2_status :: "batch \<Rightarrow> error option" where
  "wants_pm2_status vals = (if map_of vals ''pm2.status'' = None then Some Failure else None)"

text \<open>
  A home directory with the default PM2 directory; a file system without the PID file
  and one whose PID file reads 4242; a system where no process has the PID and one
  where the process 4242 runs.
\<close>

definition home :: process_env where
  "home = \<lparr>HOME = ''/home/app'', PM2_HOME = None\<rparr>"

definition no_pid_file :: "string \<Rightarrow> error + string" where
  "no_pid_file path = Inl (ErrorWithCode ''ENOENT'')"

definition pid_file :: "string \<Rightarrow> error + string" where
  "pid_file path =
     (if path = ''/home/app/.pm2/pm2.pid'' then Inr ''4242'' else Inl (ErrorWithCode ''ENOENT''))"

definition parsed :: "string \<Rightarrow> number" where
  "parsed content = (if content = ''4242'' then 4242 else 0)"

definition no_such_process :: "number \<Rightarrow> error + resources option" where
  "no_such_process p = Inl (ErrorWithCode ''ENOENT'')"

definition running :: "number \<Rightarrow> error + resources option" where
  "running p =
     (if p = 4242 then Inr (Some \<lparr>cpu = 2, memory = 4096\<rparr>) else Inl (ErrorWithCode ''ENOENT''))"

section \<open>The handler of bus events\<close>

declare string_of_nat.simps [simp del]

lemma handle_cache:
  "processes (fst (handleProcessEvent t e)) =
     AList.update (getProcessID (name (process e)) (pm_id (process e)))
       (ProcessState_new (process e)) (processes t)"
  by (simp add: handleProcessEvent_def Let_def)

lemma handle_bus: "bus (fst (handleProcessEvent t e)) = bus t"
  by (simp add: handleProcessEvent_def Let_def)

lemma handle_lookup:
  "map_of (processes (fst (handleProcessEvent t e))) =
     (map_of (processes t))
       (getProcessID (name (process e)) (pm_id (process e)) \<mapsto> ProcessState_new (process e))"
  by (simp add: handle_cache update_conv')

lemma handle_fires:
  "(snd (handleProcessEvent t e) \<noteq> None) =
     (map_option status (map_of (processes t) (getProcessID (name (process e)) (pm_id (process e))))
        \<noteq> Some (status (process e)))"
  by (auto simp add: handleProcessEvent_def Let_def equals_def ProcessState_new_def
      split: option.splits)

lemma handle_seen:
  "map_option status \<circ> map_of (processes (fst (handleProcessEvent t e))) =
     (map_option status \<circ> map_of (processes t))
       (getProcessID (name (process e)) (pm_id (process e)) \<mapsto> status (process e))"
  by (rule ext) (simp add: handle_cache update_conv' ProcessState_new_def)

lemma handle_emitted:
  "handleProcessEvent t e = (t', Some n) \<Longrightarrow>
     n = \<lparr>processID = getProcessID (name (process e)) (pm_id (process e)),
          oldState = map_of (processes t) (getProcessID (name (process e)) (pm_id (process e))),
          newState = ProcessState_new (process e)\<rparr>"
  by (auto simp add: handleProcessEvent_def Let_def split: if_splits)

text \<open>A run of events: the statuses seen so far decide each notification.\<close>

lemma handleAll_fires:
  "map (\<lambda>emitted. emitted \<noteq> None) (snd (handleAll t events)) =
     status_changes (map_option status \<circ> map_of (processes t))
       (map (\<lambda>e. (getProcessID (name (process e)) (pm_id (process e)), status (process e))) events)"
proof (induction events arbitrary: t)
  case Nil
  show ?case by simp
next
  case (Cons e es)
  define k where "k = getProcessID (name (process e)) (pm_id (process e))"
  define seen where "seen = map_option status \<circ> map_of (processes t)"
  define pairs where
    "pairs = map (\<lambda>e. (getProcessID (name (process e)) (pm_id (process e)), status (process e))) es"
  obtain t1 em where h: "handleProcessEvent t e = (t1, em)"
    by (cases "handleProcessEvent t e")
  obtain t2 r where r: "handleAll t1 es = (t2, r)"
    by (cases "handleAll t1 es")
  have f: "(em \<noteq> None) = (seen k \<noteq> Some (status (process e)))"
    using handle_fires[of t e] h by (simp add: k_def seen_def)
  have s: "map_option status \<circ> map_of (processes t1) = seen(k \<mapsto> status (process e))"
    using handle_seen[of t e] h by (simp add: k_def seen_def)
  have ih: "map (\<lambda>emitted. emitted \<noteq> None) r =
              status_changes (seen(k \<mapsto> status (process e))) pairs"
    using Cons.IH[of t1] r by (simp only: s pairs_def snd_conv)
  have "map (\<lambda>emitted. emitted \<noteq> None) (snd (handleAll t (e # es))) =
          (em \<noteq> None) # map (\<lambda>emitted. emitted \<noteq> None) r"
    using h r by simp
  also have "\<dots> = (seen k \<noteq> Some (status (process e))) #
                    status_changes (seen(k \<mapsto> status (process e))) pairs"
    by (simp only: f ih)
  also have "\<dots> = status_changes seen ((k, status (process e)) # pairs)"
    by (simp only: status_changes.simps)
  finally show ?case by (simp only: seen_def k_def pairs_def list.map)
qed

lemma handleAll_append:
  "fst (handleAll t (es @ es')) = fst (handleAll (fst (handleAll t es)) es')"
  by (induction es arbitrary: t) (simp_all add: split_beta Let_def)

lemma handleAll_bus: "bus (fst (handleAll t es)) = bus t"
  by (induction es arbitrary: t) (simp_all add: split_beta Let_def handle_bus)

lemma handleAll_lookup_other:
  "\<forall>e \<in> set es. getProcessID (name (process e)) (pm_id (process e)) \<noteq> j \<Longrightarrow>
   map_of (processes (fst (handleAll t es))) j = map_of (processes t) j"
  by (induction es arbitrary: t) (auto simp add: split_beta Let_def handle_lookup)

lemma handleAll_lookup_last:
  assumes "es \<noteq> []"
  shows "map_of (processes (fst (handleAll t es)))
           (getProcessID (name (process (last es))) (pm_id (process (last es))))
         = Some (ProcessState_new (process (last es)))"
proof -
  from assms have "es = butlast es @ [last es]" by simp
  then have "fst (handleAll t es) = fst (handleAll (fst (handleAll t (butlast es))) [last es])"
    using handleAll_append[of t "butlast es" "[last es]"] by simp
  then show ?thesis by (simp add: split_beta Let_def handle_lookup)
qed

text \<open>
  Claim C1. For every sequence of bus events that the handler processes, the handler
  emits \<open>processStateChanged\<close> for an event exactly when the status of the event's
  process differs from the status of the cache entry that the identity had just
  before the event. With no entry (the first observation of the identity) it always
  emits; an event that leaves the status as it was never emits, whatever its cpu,
  memory or restart count.
\<close>

theorem processStateChanged_iff_status_differs:
  "map (\<lambda>emitted. emitted \<noteq> None) (snd (handleAll t events)) =
     status_changes (map_option status \<circ> map_of (processes t))
       (map (\<lambda>ev. (getProcessID (name (process ev)) (pm_id (process ev)), status (process ev)))
          events)
   \<and> (snd (handleProcessEvent t e) \<noteq> None) =
       (case map_of (processes t) (getProcessID (name (process e)) (pm_id (process e))) of
          None \<Rightarrow> True
        | Some old \<Rightarrow> status old \<noteq> status (process e))"
proof
  show "map (\<lambda>emitted. emitted \<noteq> None) (snd (handleAll t events)) =
     status_changes (map_option status \<circ> map_of (processes t))
       (map (\<lambda>ev. (getProcessID (name (process ev)) (pm_id (process ev)), status (process ev)))
          events)"
    by (rule handleAll_fires)
  show "(snd (handleProcessEvent t e) \<noteq> None) =
       (case map_of (processes t) (getProcessID (name (process e)) (pm_id (process e))) of
          None \<Rightarrow> True
        | Some old \<Rightarrow> status old \<noteq> status (process e))"
    unfolding handle_fires by (simp split: option.split)
qed

text \<open>
  Four events on a new tracker: the first observation of \<open>web-0\<close> fires, a change of
  the restart count alone does not, the change to \<open>stopping\<close> fires, and so does
  the first observation of \<open>web-1\<close>.
\<close>

theorem processStateChanged_iff_status_differs_witness:
  "map (\<lambda>emitted. emitted \<noteq> None)
     (snd (handleAll PM2Tracker_new
        [web_event 0 ''online'' 0, web_event 0 ''online'' 7, web_event 0 ''stopping'' 7,
         web_event 1 ''stopping'' 0]))
   = [True, False, True, True]"
  using processStateChanged_iff_status_differs [of PM2Tracker_new
      "[web_event 0 ''online'' 0, web_event 0 ''online'' 7, web_event 0 ''stopping'' 7,
        web_event 1 ''stopping'' 0]"]
  by (simp add: PM2Tracker_new_def web_event_def getProcessID_def string_of_nat.simps digit_def)

text \<open>
  Claim C2. The handler replaces the cache entry of the event's identity with the
  state built from the event, whether or not it emits a notification. Hence after a
  non-empty sequence of events of one identity, the cache holds for that identity the
  state built from the last event.
\<close>

theorem cache_entry_replaced_unconditionally:
  "map_of (processes (fst (handleProcessEvent t e)))
       (getProcessID (name (process e)) (pm_id (process e))) = Some (ProcessState_new (process e))
   \<and> (events \<noteq> [] \<and>
       (\<forall>ev \<in> set events. getProcessID (name (process ev)) (pm_id (process ev)) = i)
        \<longrightarrow> map_of (processes (fst (handleAll t events))) i
             = Some (ProcessState_new (process (last events))))"
  using handleAll_lookup_last[of events t] by (auto simp add: handle_lookup)

theorem cache_entry_replaced_unconditionally_witness:
  "map_of (processes (fst (handleAll PM2Tracker_new
        [web_event 0 ''online'' 0, web_event 0 ''online'' 7, web_event 0 ''stopping'' 7])))
     ''web-0''
   = Some \<lparr>name = ''web'', status = ''stopping'', resources = None, restarts = Some 7,
           pid = None\<rparr>"
  using cache_entry_replaced_unconditionally
    [where events = "[web_event 0 ''online'' 0, web_event 0 ''online'' 7,
                      web_event 0 ''stopping'' 7]"
       and i = "''web-0''" and t = PM2Tracker_new]
  by (simp add: web_event_def getProcessID_def string_of_nat.simps digit_def ProcessState_new_def)

text \<open>
  Claim C10. Whenever the handler emits a notification, its \<open>newState\<close> is the state
  that the cache holds under the notification's identity once the handler has run (the
  handler stores it before it emits), and its \<open>oldState\<close> is the entry that the cache
  held under that identity before the event, absent on the first observation.
\<close>

theorem notification_agrees_with_cache:
  assumes "handleProcessEvent t e = (t', Some n)"
  shows "processID n = getProcessID (name (process e)) (pm_id (process e))
       \<and> newState n = ProcessState_new (process e)
       \<and> map_of (processes t') (processID n) = Some (newState n)
       \<and> oldState n = map_of (processes t) (processID n)"
proof -
  have c: "map_of (processes t') =
             (map_of (processes t))
               (getProcessID (name (process e)) (pm_id (process e)) \<mapsto> ProcessState_new (process e))"
    using handle_lookup[of t e] assms by simp
  show ?thesis using handle_emitted[OF assms] c by simp
qed

theorem notification_agrees_with_cache_witness:
  "handleProcessEvent
      \<lparr>bus = Some Bus, processes = [(''web-0'', \<lparr>name = ''web'', status = ''online'',
          resources = Some \<lparr>cpu = 1.5, memory = 1024\<rparr>, restarts = Some 0, pid = None\<rparr>)]\<rparr>
      (web_event 0 ''stopping'' 0)
    = (\<lparr>bus = Some Bus, processes = [(''web-0'', \<lparr>name = ''web'', status = ''stopping'',
          resources = None, restarts = Some 0, pid = None\<rparr>)]\<rparr>,
       Some \<lparr>processID = ''web-0'',
             oldState = Some \<lparr>name = ''web'', status = ''online'',
                resources = Some \<lparr>cpu = 1.5, memory = 1024\<rparr>, restarts = Some 0, pid = None\<rparr>,
             newState = \<lparr>name = ''web'', status = ''stopping'',
                resources = None, restarts = Some 0, pid = None\<rparr>\<rparr>)
   \<and> map_of [(''web-0'', \<lparr>name = ''web'', status = ''stopping'',
          resources = None, restarts = Some 0, pid = None\<rparr>)] ''web-0''
     = Some \<lparr>name = ''web'', status = ''stopping'', resources = None, restarts = Some 0,
             pid = None\<rparr>"
proof -
  have h: "handleProcessEvent
      \<lparr>bus = Some Bus, processes = [(''web-0'', \<lparr>name = ''web'', status = ''online'',
          resources = Some \<lparr>cpu = 1.5, memory = 1024\<rparr>, restarts = Some 0, pid = None\<rparr>)]\<rparr>
      (web_event 0 ''stopping'' 0)
    = (\<lparr>bus = Some Bus, processes = [(''web-0'', \<lparr>name = ''web'', status = ''stopping'',
          resources = None, restarts = Some 0, pid = None\<rparr>)]\<rparr>,
       Some \<lparr>processID = ''web-0'',
             oldState = Some \<lparr>name = ''web'', status = ''online'',
                resources = Some \<lparr>cpu = 1.5, memory = 1024\<rparr>, restarts = Some 0, pid = None\<rparr>,
             newState = \<lparr>name = ''web'', status = ''stopping'',
                resources = None, restarts = Some 0, pid = None\<rparr>\<rparr>)"
    by (simp add: handleProcessEvent_def Let_def web_event_def getProcessID_def
          string_of_nat.simps digit_def ProcessState_new_def equals_def)
  show ?thesis using h notification_agrees_with_cache [OF h] by simp
qed

section \<open>Identities\<close>

text \<open>
  The identity of a process is its name, a dash and its index in decimal. The digits
  hold no dash, so the last dash of an identity splits it: two processes have the same
  identity only when they have the same name and the same index.
\<close>

lemma digit_inj: "a < 10 \<Longrightarrow> b < 10 \<Longrightarrow> digit a = digit b \<Longrightarrow> a = b"
  unfolding digit_def by (simp split: if_splits; arith)

lemma digit_not_dash: "digit d \<noteq> CHR ''-''"
  by (simp add: digit_def)

lemma string_of_nat_no_dash: "CHR ''-'' \<notin> set (string_of_nat n)"
proof (induction n rule: string_of_nat.induct)
  case (1 n)
  show ?case
  proof (cases "n < 10")
    case True
    then show ?thesis by (simp add: string_of_nat.simps[of n] digit_not_dash[symmetric])
  next
    case False
    then show ?thesis using 1 by (simp add: string_of_nat.simps[of n] digit_not_dash[symmetric])
  qed
qed

lemma string_of_nat_nonempty: "string_of_nat n \<noteq> []"
  by (subst string_of_nat.simps) simp

lemma string_of_nat_inj: "string_of_nat n = string_of_nat m \<Longrightarrow> n = m"
proof (induction n arbitrary: m rule: string_of_nat.induct)
  case (1 n)
  show ?case
  proof (cases "n < 10")
    case n: True
    show ?thesis
    proof (cases "m < 10")
      case True
      then show ?thesis using n "1.prems"
        by (simp add: string_of_nat.simps[of n] string_of_nat.simps[of m] digit_inj)
    next
      case False
      then show ?thesis using n "1.prems" string_of_nat_nonempty[of "m div 10"]
        by (simp add: string_of_nat.simps[of n] string_of_nat.simps[of m])
    qed
  next
    case n: False
    show ?thesis
    proof (cases "m < 10")
      case True
      then show ?thesis using n "1.prems" string_of_nat_nonempty[of "n div 10"]
        by (simp add: string_of_nat.simps[of n] string_of_nat.simps[of m])
    next
      case False
      then have e: "string_of_nat (n div 10) = string_of_nat (m div 10)"
        and d: "digit (n mod 10) = digit (m mod 10)"
        using n "1.prems" by (simp_all add: string_of_nat.simps[of n] string_of_nat.simps[of m])
      have "n div 10 = m div 10" using "1.IH"[OF n e] .
      moreover have "n mod 10 = m mod 10" using d by (simp add: digit_inj)
      ultimately show ?thesis by (metis div_mult_mod_eq)
    qed
  qed
qed

lemma split_at_last:
  assumes "xs @ c # ys = xs' @ c # ys'" and "c \<notin> set ys" and "c \<notin> set ys'"
  shows "xs = xs' \<and> ys = ys'"
proof -
  have "takeWhile (\<lambda>x. x \<noteq> c) (rev (xs @ c # ys)) = rev ys"
    using assms(2) by (auto simp add: takeWhile_tail)
  moreover have "takeWhile (\<lambda>x. x \<noteq> c) (rev (xs' @ c # ys')) = rev ys'"
    using assms(3) by (auto simp add: takeWhile_tail)
  ultimately have "ys = ys'" using assms(1) by simp
  then show ?thesis using assms(1) by simp
qed

lemma getProcessID_inj:
  "getProcessID n i = getProcessID n' i' \<Longrightarrow> n = n' \<and> i = i'"
  using split_at_last[of n "CHR ''-''" "string_of_nat i" n' "string_of_nat i'"]
  by (auto simp add: getProcessID_def string_of_nat_no_dash dest: string_of_nat_inj)

section \<open>The process map and the start of the tracker\<close>

lemma fold_update_keys:
  "fst ` set (fold (\<lambda>e. AList.update (f e) (g e)) es acc) = fst ` set acc \<union> f ` set es"
  by (induction es arbitrary: acc) (auto simp add: dom_update)

lemma fold_update_distinct:
  "distinct (map fst acc) \<Longrightarrow> distinct (map fst (fold (\<lambda>e. AList.update (f e) (g e)) es acc))"
  by (induction es arbitrary: acc) (simp_all add: distinct_update)

lemma update_fresh: "k \<notin> fst ` set al \<Longrightarrow> AList.update k v al = al @ [(k, v)]"
  by (induction al) auto

lemma fold_update_fresh:
  "distinct (map fst acc @ map f es) \<Longrightarrow>
   fold (\<lambda>e. AList.update (f e) (g e)) es acc = acc @ map (\<lambda>e. (f e, g e)) es"
proof (induction es arbitrary: acc)
  case Nil
  show ?case by simp
next
  case (Cons e es)
  have fresh: "f e \<notin> fst ` set acc" using Cons.prems by auto
  have "distinct (map fst (acc @ [(f e, g e)]) @ map f es)" using Cons.prems by auto
  then show ?case using Cons.IH[of "acc @ [(f e, g e)]"] by (simp add: update_fresh[OF fresh])
qed

lemma generateProcessMap_keys:
  "fst ` set (generateProcessMap processList) =
     (\<lambda>e. getProcessID (processEntry.name e) (processEntry.pm_id e)) ` set processList"
  unfolding generateProcessMap_def by (simp add: fold_update_keys)

lemma generateProcessMap_distinct: "distinct (map fst (generateProcessMap processList))"
  unfolding generateProcessMap_def by (rule fold_update_distinct) simp

lemma distinct_identities:
  "distinct (map (\<lambda>e. (processEntry.name e, processEntry.pm_id e)) processList) \<Longrightarrow>
   distinct (map (\<lambda>e. getProcessID (processEntry.name e) (processEntry.pm_id e)) processList)"
proof -
  assume d: "distinct (map (\<lambda>e. (processEntry.name e, processEntry.pm_id e)) processList)"
  have "map (\<lambda>e. getProcessID (processEntry.name e) (processEntry.pm_id e)) processList =
        map (\<lambda>(n, i). getProcessID n i) (map (\<lambda>e. (processEntry.name e, processEntry.pm_id e)) processList)"
    by simp
  moreover have "inj_on (\<lambda>(n, i). getProcessID n i) A" for A
    by (rule inj_onI) (auto dest: getProcessID_inj)
  ultimately show ?thesis using d by (simp only: distinct_map simp_thms)
qed

lemma generateProcessMap_listed:
  assumes "distinct (map (\<lambda>e. (processEntry.name e, processEntry.pm_id e)) processList)"
  shows "generateProcessMap processList =
     map (\<lambda>e. (getProcessID (processEntry.name e) (processEntry.pm_id e),
               \<lparr>name = processEntry.name e, status = pm2_env.status (pm2_env e),
                resources = Some (monit e), restarts = Some (restart_time (pm2_env e)),
                pid = None\<rparr>)) processList"
  unfolding generateProcessMap_def
  using fold_update_fresh[of "[]" "\<lambda>e. getProcessID (processEntry.name e) (processEntry.pm_id e)" processList]
    distinct_identities[OF assms]
  by (simp add: ProcessState_new_def)

lemma start_ok:
  assumes "connectAsync pm2 = None" "launchBusAsync pm2 = Inr b" "listAsync pm2 = Inr processList"
  shows "snd (snd (PM2Tracker_start t pm2)) = Inr ()"
    and "processes (fst (PM2Tracker_start t pm2)) = generateProcessMap processList"
    and "bus (fst (PM2Tracker_start t pm2)) = Some b"
  using assms
  by (simp_all add: PM2Tracker_start_def split_beta Let_def loadProcessList_def dispatchAll_def handleAll_bus)

lemma forEach_register:
  "set ks \<subseteq> fst ` set pm \<Longrightarrow> distinct (map fst pm) \<Longrightarrow>
   forEach ks (registerProcessForDiscovery pm) p =
     Inr (p\<lparr>discoveryItems := discoveryItems p @
            map (\<lambda>(k, st). [(''{#PROCESS_ID}'', k), (''{#PROCESS_NAME}'', name st)])
              (map (\<lambda>k. (k, the (map_of pm k))) ks)\<rparr>)"
proof (induction ks arbitrary: p)
  case Nil
  show ?case by simp
next
  case (Cons k ks)
  then obtain st where st: "map_of pm k = Some st"
    by (metis list.set_intros(1) map_of_eq_None_iff not_Some_eq subsetD)
  show ?case using Cons st
    by (simp add: registerProcessForDiscovery_def addDiscoveryItem_def)
qed

lemma entries_by_key:
  assumes d: "distinct (map fst pm)"
  shows "map (\<lambda>k. (k, the (map_of pm k))) (map fst pm) = pm"
proof -
  have "(fst x, the (map_of pm (fst x))) = x" if "x \<in> set pm" for x
    using map_of_is_SomeI[OF d, of "fst x" "snd x"] that by simp
  then have "map ((\<lambda>k. (k, the (map_of pm k))) \<circ> fst) pm = map (\<lambda>x. x) pm"
    by (intro map_cong[OF refl]) simp
  then show ?thesis by simp
qed

text \<open>
  The monitor registers one discovery item per key of the cached map, in the order of
  the keys.
\<close>

lemma start_monitor_ok:
  assumes "connectAsync pm2 = None" "launchBusAsync pm2 = Inr b" "listAsync pm2 = Inr processList"
  shows "snd (snd (PM2ZabbixMonitor_start m pm2)) = Inr ()"
    and "discoveryItems (dataProvider (fst (PM2ZabbixMonitor_start m pm2))) =
           discoveryItems (dataProvider m) @
           map (\<lambda>(k, st). [(''{#PROCESS_ID}'', k), (''{#PROCESS_NAME}'', name st)])
             (generateProcessMap processList)"
proof -
  let ?pm = "generateProcessMap processList"
  have f: "forEach (map fst ?pm) (registerProcessForDiscovery ?pm) (dataProvider m) =
     Inr ((dataProvider m)\<lparr>discoveryItems := discoveryItems (dataProvider m) @
            map (\<lambda>(k, st). [(''{#PROCESS_ID}'', k), (''{#PROCESS_NAME}'', name st)]) ?pm\<rparr>)"
    using forEach_register[of "map fst ?pm" ?pm "dataProvider m"]
    by (simp only: entries_by_key[OF generateProcessMap_distinct] generateProcessMap_distinct
          set_map subset_refl simp_thms)
  obtain t em r where s: "PM2Tracker_start (tracker m) pm2 = (t, em, r)"
    by (cases "PM2Tracker_start (tracker m) pm2")
  have r: "r = Inr ()" and c: "processes t = ?pm"
    using start_ok(1,2)[OF assms, of "tracker m"] s by simp_all
  show "snd (snd (PM2ZabbixMonitor_start m pm2)) = Inr ()"
    by (simp add: PM2ZabbixMonitor_start_def s r c f getCachedProcessMap_def Let_def)
  show "discoveryItems (dataProvider (fst (PM2ZabbixMonitor_start m pm2))) =
           discoveryItems (dataProvider m) @
           map (\<lambda>(k, st). [(''{#PROCESS_ID}'', k), (''{#PROCESS_NAME}'', name st)]) ?pm"
    by (simp add: PM2ZabbixMonitor_start_def s r c f getCachedProcessMap_def Let_def)
qed

lemma start_not_fulfilled:
  assumes "early_events pm2 = []" and "snd (snd (PM2Tracker_start t pm2)) \<noteq> Inr ()"
  shows "processes (fst (PM2Tracker_start t pm2)) = processes t"
  using assms
  by (auto simp add: PM2Tracker_start_def dispatchAll_def Let_def
      split: option.splits sum.splits)

text \<open>
  Claim C8, as stated, fails on the code. \<open>start\<close> registers its listener before it
  asks for the list, so an event that arrives while the list is in flight is entered
  into the cache at once. Here the list then fails: \<open>start\<close> is rejected without
  having populated the cache, and the cached map is not empty.
\<close>

theorem cache_holds_early_event_before_list:
  "snd (snd (PM2Tracker_start PM2Tracker_new
       \<lparr>connectAsync = None, launchBusAsync = Inr Bus,
        early_events = [web_event 5 ''stopping'' 0], listAsync = Inl Failure\<rparr>))
     = Inl Failure
   \<and> getCachedProcessMap (fst (PM2Tracker_start PM2Tracker_new
       \<lparr>connectAsync = None, launchBusAsync = Inr Bus,
        early_events = [web_event 5 ''stopping'' 0], listAsync = Inl Failure\<rparr>))
     = [(''web-5'', \<lparr>name = ''web'', status = ''stopping'', resources = None,
          restarts = Some 0, pid = None\<rparr>)]"
  by (simp add: PM2Tracker_start_def dispatchAll_def PM2Tracker_new_def getCachedProcessMap_def
        handleProcessEvent_def web_event_def getProcessID_def string_of_nat.simps digit_def
        ProcessState_new_def Let_def)

text \<open>
  Claim C8, amended. \<open>getCachedProcessMap\<close> is a projection of the tracker's state:
  it takes no answer of the process manager or of the system and has no error result.
  On a new tracker it is the empty map, and it stays what it was for as long as
  \<open>start\<close> has neither handled a bus event nor loaded the list: storing the bus does
  not change it, nor does a start that ends without the list and without an early
  event. When \<open>connect\<close>, \<open>launchBus\<close> and \<open>list\<close> succeed, \<open>start\<close> fulfils and
  the cached map is the map generated from the answer of \<open>list\<close>, whatever events
  arrived while the list was in flight: its keys are the identities of the listed
  entries, each once, and when no process is listed twice it has one entry per listed
  descriptor, in the order of the list, under the identity derived from the descriptor.
\<close>

theorem getCachedProcessMap_empty_then_initial_list:
  "getCachedProcessMap PM2Tracker_new = []
   \<and> getCachedProcessMap t = processes t
   \<and> getCachedProcessMap (t\<lparr>bus := Some b\<rparr>) = getCachedProcessMap t
   \<and> (early_events pm2 = [] \<and> snd (snd (PM2Tracker_start t pm2)) \<noteq> Inr () \<longrightarrow>
        getCachedProcessMap (fst (PM2Tracker_start t pm2)) = getCachedProcessMap t)
   \<and> (connectAsync pm2 = None \<and> launchBusAsync pm2 = Inr b \<and> listAsync pm2 = Inr processList
        \<longrightarrow>
        snd (snd (PM2Tracker_start t pm2)) = Inr ()
        \<and> getCachedProcessMap (fst (PM2Tracker_start t pm2)) = generateProcessMap processList
        \<and> fst ` set (getCachedProcessMap (fst (PM2Tracker_start t pm2))) =
            (\<lambda>e. getProcessID (processEntry.name e) (processEntry.pm_id e)) ` set processList
        \<and> distinct (map fst (getCachedProcessMap (fst (PM2Tracker_start t pm2))))
        \<and> (distinct (map (\<lambda>e. (processEntry.name e, processEntry.pm_id e)) processList) \<longrightarrow>
             getCachedProcessMap (fst (PM2Tracker_start t pm2)) =
               map (\<lambda>e. (getProcessID (processEntry.name e) (processEntry.pm_id e),
                         \<lparr>name = processEntry.name e, status = pm2_env.status (pm2_env e),
                          resources = Some (monit e), restarts = Some (restart_time (pm2_env e)),
                          pid = None\<rparr>)) processList))"
proof -
  have 1: "getCachedProcessMap PM2Tracker_new = []"
    by (simp add: getCachedProcessMap_def PM2Tracker_new_def)
  have 2: "getCachedProcessMap t = processes t"
    and 3: "getCachedProcessMap (t\<lparr>bus := Some b\<rparr>) = getCachedProcessMap t"
    by (simp_all add: getCachedProcessMap_def)
  have 4: "early_events pm2 = [] \<and> snd (snd (PM2Tracker_start t pm2)) \<noteq> Inr () \<longrightarrow>
        getCachedProcessMap (fst (PM2Tracker_start t pm2)) = getCachedProcessMap t"
    using start_not_fulfilled[of pm2 t] by (simp add: getCachedProcessMap_def)
  have 5: "snd (snd (PM2Tracker_start t pm2)) = Inr ()
        \<and> getCachedProcessMap (fst (PM2Tracker_start t pm2)) = generateProcessMap processList
        \<and> fst ` set (getCachedProcessMap (fst (PM2Tracker_start t pm2))) =
            (\<lambda>e. getProcessID (processEntry.name e) (processEntry.pm_id e)) ` set processList
        \<and> distinct (map fst (getCachedProcessMap (fst (PM2Tracker_start t pm2))))
        \<and> (distinct (map (\<lambda>e. (processEntry.name e, processEntry.pm_id e)) processList) \<longrightarrow>
             getCachedProcessMap (fst (PM2Tracker_start t pm2)) =
               map (\<lambda>e. (getProcessID (processEntry.name e) (processEntry.pm_id e),
                         \<lparr>name = processEntry.name e, status = pm2_env.status (pm2_env e),
                          resources = Some (monit e), restarts = Some (restart_time (pm2_env e)),
                          pid = None\<rparr>)) processList)"
    if a: "connectAsync pm2 = None" "launchBusAsync pm2 = Inr b" "listAsync pm2 = Inr processList"
  proof -
    have c: "getCachedProcessMap (fst (PM2Tracker_start t pm2)) = generateProcessMap processList"
      using start_ok(2)[OF a] by (simp add: getCachedProcessMap_def)
    show ?thesis
      unfolding c using start_ok(1)[OF a]
      by (simp add: generateProcessMap_keys generateProcessMap_distinct generateProcessMap_listed)
  qed
  show ?thesis using 1 2 3 4 5 by blast
qed

text \<open>
  A start that ends without the list and without an early event leaves the cache of a
  new tracker empty. A start during which an event for \<open>web-5\<close> arrives before
  \<open>list\<close> answers \<open>web-0\<close> and \<open>web-1\<close> ends with the two listed processes.
\<close>

theorem getCachedProcessMap_empty_then_initial_list_witness:
  "getCachedProcessMap PM2Tracker_new = []
   \<and> getCachedProcessMap
       (fst (PM2Tracker_start PM2Tracker_new
          \<lparr>connectAsync = None, launchBusAsync = Inr Bus,
           early_events = [], listAsync = Inl Failure\<rparr>))
     = []
   \<and> getCachedProcessMap
       (fst (PM2Tracker_start PM2Tracker_new
          \<lparr>connectAsync = None, launchBusAsync = Inr Bus,
           early_events = [web_event 5 ''stopping'' 0], listAsync = Inr [web 0, web 1]\<rparr>))
     = [(''web-0'', \<lparr>name = ''web'', status = ''online'',
           resources = Some \<lparr>cpu = 1.5, memory = 1024\<rparr>, restarts = Some 0, pid = None\<rparr>),
        (''web-1'', \<lparr>name = ''web'', status = ''online'',
           resources = Some \<lparr>cpu = 1.5, memory = 1024\<rparr>, restarts = Some 0, pid = None\<rparr>)]"
proof -
  let ?failing = "\<lparr>connectAsync = None, launchBusAsync = Inr Bus,
           early_events = [], listAsync = Inl Failure\<rparr>"
  let ?listed = "\<lparr>connectAsync = None, launchBusAsync = Inr Bus,
           early_events = [web_event 5 ''stopping'' 0], listAsync = Inr [web 0, web 1]\<rparr>"
  have f: "early_events ?failing = [] \<and> snd (snd (PM2Tracker_start PM2Tracker_new ?failing)) \<noteq> Inr ()"
    by (simp add: PM2Tracker_start_def dispatchAll_def)
  have a: "connectAsync ?listed = None \<and> launchBusAsync ?listed = Inr Bus
           \<and> listAsync ?listed = Inr [web 0, web 1]"
    by simp
  have d: "distinct (map (\<lambda>e. (processEntry.name e, processEntry.pm_id e)) [web 0, web 1])"
    by (simp add: web_def)
  from getCachedProcessMap_empty_then_initial_list
         [of PM2Tracker_new Bus ?failing] f
  have 1: "getCachedProcessMap PM2Tracker_new = []"
    and 2: "getCachedProcessMap (fst (PM2Tracker_start PM2Tracker_new ?failing)) =
              getCachedProcessMap PM2Tracker_new"
    by blast+
  from getCachedProcessMap_empty_then_initial_list
         [of PM2Tracker_new Bus ?listed "[web 0, web 1]"]
       a d
  have 3: "getCachedProcessMap (fst (PM2Tracker_start PM2Tracker_new ?listed)) =
          map (\<lambda>e. (getProcessID (processEntry.name e) (processEntry.pm_id e),
                    \<lparr>name = processEntry.name e, status = pm2_env.status (pm2_env e),
                     resources = Some (monit e), restarts = Some (restart_time (pm2_env e)),
                     pid = None\<rparr>)) [web 0, web 1]"
    by blast
  show ?thesis
    using 1 2 3 by (simp add: web_def getProcessID_def string_of_nat.simps digit_def)
qed

text \<open>
  Claim C5. When \<open>connect\<close>, \<open>launchBus\<close> and \<open>list\<close> succeed, \<open>start\<close> of the
  monitor fulfils and the discovery data is the envelope whose \<open>data\<close> holds the
  items the provider had before (none for a provider constructed without items),
  followed by one item per entry of the cached map, in its order. When no process is
  listed twice that is one item per listed process, in the order of the list, with
  exactly the two keys \<open>{#PROCESS_ID}\<close>, the name, a dash and the index, and
  \<open>{#PROCESS_NAME}\<close>, the name.
\<close>

theorem discovery_data_after_start:
  assumes "connectAsync pm2 = None" and "launchBusAsync pm2 = Inr b"
    and "listAsync pm2 = Inr processList"
  shows "snd (snd (PM2ZabbixMonitor_start m pm2)) = Inr ()
       \<and> getDiscoveryData (dataProvider (fst (PM2ZabbixMonitor_start m pm2))) =
           \<lparr>data = discoveryItems (dataProvider m) @
              map (\<lambda>(procID, st). [(''{#PROCESS_ID}'', procID), (''{#PROCESS_NAME}'', name st)])
                (generateProcessMap processList)\<rparr>
       \<and> (distinct (map (\<lambda>e. (processEntry.name e, processEntry.pm_id e)) processList) \<longrightarrow>
            getDiscoveryData (dataProvider (fst (PM2ZabbixMonitor_start m pm2))) =
              \<lparr>data = discoveryItems (dataProvider m) @
                 map (\<lambda>e. [(''{#PROCESS_ID}'',
                              processEntry.name e @ ''-'' @ string_of_nat (processEntry.pm_id e)),
                            (''{#PROCESS_NAME}'', processEntry.name e)])
                   processList\<rparr>)"
proof -
  have d: "getDiscoveryData (dataProvider (fst (PM2ZabbixMonitor_start m pm2))) =
           \<lparr>data = discoveryItems (dataProvider m) @
              map (\<lambda>(procID, st). [(''{#PROCESS_ID}'', procID), (''{#PROCESS_NAME}'', name st)])
                (generateProcessMap processList)\<rparr>"
    using start_monitor_ok(2)[OF assms] by (simp add: getDiscoveryData_def)
  show ?thesis
    unfolding d using start_monitor_ok(1)[OF assms]
    by (simp add: generateProcessMap_listed getProcessID_def comp_def)
qed

text \<open>The list \<open>web\<close> 0, \<open>web\<close> 1 gives the items \<open>web-0\<close> and \<open>web-1\<close>, in that order.\<close>

theorem discovery_data_after_start_witness:
  "getDiscoveryData
     (dataProvider (fst (PM2ZabbixMonitor_start
        (PM2ZabbixMonitor_new PM2Tracker_new (ZabbixDataProvider_new accepting None) None)
        (pm2_up [web 0, web 1]))))
   = \<lparr>data = [[(''{#PROCESS_ID}'', ''web-0''), (''{#PROCESS_NAME}'', ''web'')],
              [(''{#PROCESS_ID}'', ''web-1''), (''{#PROCESS_NAME}'', ''web'')]]\<rparr>"
proof -
  let ?m = "PM2ZabbixMonitor_new PM2Tracker_new (ZabbixDataProvider_new accepting None) None"
  have a: "connectAsync (pm2_up [web 0, web 1]) = None"
    and b: "launchBusAsync (pm2_up [web 0, web 1]) = Inr Bus"
    and c: "listAsync (pm2_up [web 0, web 1]) = Inr [web 0, web 1]"
    by (simp_all add: pm2_up_def)
  have d: "distinct (map (\<lambda>e. (processEntry.name e, processEntry.pm_id e)) [web 0, web 1])"
    by (simp add: web_def)
  from discovery_data_after_start [OF a b c, of ?m] d
  have "getDiscoveryData (dataProvider (fst (PM2ZabbixMonitor_start ?m (pm2_up [web 0, web 1])))) =
          \<lparr>data = discoveryItems (dataProvider ?m) @
             map (\<lambda>e. [(''{#PROCESS_ID}'',
                          processEntry.name e @ ''-'' @ string_of_nat (processEntry.pm_id e)),
                        (''{#PROCESS_NAME}'', processEntry.name e)])
               [web 0, web 1]\<rparr>"
    by blast
  then show ?thesis
    by (simp add: web_def string_of_nat.simps digit_def PM2ZabbixMonitor_new_def
          ZabbixDataProvider_new_def Let_def)
qed

section \<open>The discovery list\<close>

lemma remove_matches:
  "list_all (\<lambda>removalKey. map_of spec removalKey = map_of item removalKey) (map fst spec) =
     (\<forall>k v. map_of spec k = Some v \<longrightarrow> map_of item k = Some v)"
proof
  assume a: "list_all (\<lambda>removalKey. map_of spec removalKey = map_of item removalKey) (map fst spec)"
  show "\<forall>k v. map_of spec k = Some v \<longrightarrow> map_of item k = Some v"
  proof (intro allI impI)
    fix k v
    assume s: "map_of spec k = Some v"
    then have "(k, v) \<in> set spec" by (rule map_of_SomeD)
    then have "k \<in> set (map fst spec)" by (simp add: rev_image_eqI)
    then have "map_of spec k = map_of item k" using a by (auto simp add: list_all_iff)
    then show "map_of item k = Some v" using s by simp
  qed
next
  assume a: "\<forall>k v. map_of spec k = Some v \<longrightarrow> map_of item k = Some v"
  show "list_all (\<lambda>removalKey. map_of spec removalKey = map_of item removalKey) (map fst spec)"
    unfolding list_all_iff
  proof
    fix k
    assume "k \<in> set (map fst spec)"
    then obtain v where "map_of spec k = Some v"
      by (metis map_of_eq_None_iff not_Some_eq set_map)
    then show "map_of spec k = map_of item k" using a by simp
  qed
qed

text \<open>
  Claim C7. \<open>removeDiscoveryItems\<close> keeps, in their order, the items that do not match
  the removal specification and removes the others, where an item matches when every
  key of the specification is a key of the item with the same value; keys of the item
  that the specification does not mention play no part. The empty specification
  matches every item, so it empties the list. Nothing else of the provider changes.
\<close>

theorem removeDiscoveryItems_removes_matching:
  "discoveryItems (removeDiscoveryItems p removalSpecification) =
     filter (\<lambda>item. \<not> (\<forall>k v. map_of removalSpecification k = Some v \<longrightarrow> map_of item k = Some v))
       (discoveryItems p)
   \<and> discoveryItems (removeDiscoveryItems p []) = []
   \<and> sender (removeDiscoveryItems p removalSpecification) = sender p"
  by (simp add: removeDiscoveryItems_def remove_matches)

text \<open>
  Removing \<open>{#PROCESS_ID}\<close> = \<open>web-0\<close> removes the first item and the third, which has
  another name, an extra key and its keys in another order.
\<close>

theorem removeDiscoveryItems_removes_matching_witness:
  "discoveryItems (removeDiscoveryItems
      \<lparr>sender = accepting,
       discoveryItems =
         [[(''{#PROCESS_ID}'', ''web-0''), (''{#PROCESS_NAME}'', ''web'')],
          [(''{#PROCESS_ID}'', ''web-1''), (''{#PROCESS_NAME}'', ''web'')],
          [(''{#PROCESS_NAME}'', ''api''), (''{#PROCESS_ID}'', ''web-0''), (''{#EXTRA}'', ''x'')]]\<rparr>
      [(''{#PROCESS_ID}'', ''web-0'')])
   = [[(''{#PROCESS_ID}'', ''web-1''), (''{#PROCESS_NAME}'', ''web'')]]"
proof -
  let ?p = "\<lparr>sender = accepting,
       discoveryItems =
         [[(''{#PROCESS_ID}'', ''web-0''), (''{#PROCESS_NAME}'', ''web'')],
          [(''{#PROCESS_ID}'', ''web-1''), (''{#PROCESS_NAME}'', ''web'')],
          [(''{#PROCESS_NAME}'', ''api''), (''{#PROCESS_ID}'', ''web-0''), (''{#EXTRA}'', ''x'')]]\<rparr>"
  have m: "(\<forall>k v. map_of [(''{#PROCESS_ID}'', ''web-0'')] k = Some v \<longrightarrow> map_of item k = Some v)
         = (map_of item ''{#PROCESS_ID}'' = Some ''web-0'')" for item :: discoveryItem
    by (auto split: if_splits)
  from removeDiscoveryItems_removes_matching [of ?p "[(''{#PROCESS_ID}'', ''web-0'')]"]
  have "discoveryItems (removeDiscoveryItems ?p [(''{#PROCESS_ID}'', ''web-0'')]) =
     filter (\<lambda>item. \<not> (\<forall>k v. map_of [(''{#PROCESS_ID}'', ''web-0'')] k = Some v \<longrightarrow> map_of item k = Some v))
       (discoveryItems ?p)"
    by (rule conjunct1)
  then show ?thesis unfolding m by simp
qed

section \<open>The batches sent\<close>

lemma data_key_inj:
  assumes "''pm2.processes['' @ i @ '','' @ f @ '']'' = ''pm2.processes['' @ i' @ '','' @ f' @ '']''"
    and "f \<in> field_names" and "f' \<in> field_names"
  shows "i = i' \<and> f = f'"
proof -
  have "i @ CHR '','' # (f @ '']'') = i' @ CHR '','' # (f' @ '']'')"
    using assms(1) by simp
  moreover have "CHR '','' \<notin> set (f @ '']'')" "CHR '','' \<notin> set (f' @ '']'')"
    using assms(2,3) by (auto simp add: field_names_def)
  ultimately have "i = i' \<and> f @ '']'' = f' @ '']''"
    by (rule split_at_last)
  then show ?thesis by simp
qed

lemma process_fields_keys:
  "fst ` set (process_fields i st) = (\<lambda>f. ''pm2.processes['' @ i @ '','' @ f @ '']'') ` field_names"
  by (simp add: process_fields_def field_names_def)

lemma process_fields_disjoint:
  "i \<noteq> i' \<Longrightarrow> fst ` set (process_fields i st) \<inter> fst ` set (process_fields i' st') = {}"
  unfolding process_fields_keys using data_key_inj by blast

lemma putProcess_fresh:
  assumes "map_of pm i = Some st" and "resources st = Some r"
    and "fst ` set acc \<inter> fst ` set (process_fields i st) = {}"
  shows "putProcess pm i acc = Inr (acc @ process_fields i st)"
proof -
  have k: "''pm2.processes['' @ i @ '',status]'' \<notin> fst ` set acc"
    "''pm2.processes['' @ i @ '',cpu]'' \<notin> fst ` set acc"
    "''pm2.processes['' @ i @ '',memory]'' \<notin> fst ` set acc"
    "''pm2.processes['' @ i @ '',restarts]'' \<notin> fst ` set acc"
    using assms(3) by (auto simp add: process_fields_def)
  show ?thesis
    using assms(1,2) k
    by (simp add: putProcess_def getDataKey_def process_fields_def update_fresh of_property_def)
qed

lemma forEach_putProcess:
  assumes "distinct ks"
    and "\<forall>k \<in> set ks. \<exists>st r. map_of pm k = Some st \<and> resources st = Some r"
    and "\<forall>k \<in> set ks. fst ` set acc \<inter> fst ` set (process_fields k (the (map_of pm k))) = {}"
  shows "forEach ks (putProcess pm) acc =
           Inr (acc @ concat (map (\<lambda>k. process_fields k (the (map_of pm k))) ks))"
  using assms
proof (induction ks arbitrary: acc)
  case Nil
  show ?case by simp
next
  case (Cons k ks)
  from Cons.prems(2) obtain st r where st: "map_of pm k = Some st" "resources st = Some r"
    by auto
  have f: "fst ` set acc \<inter> fst ` set (process_fields k st) = {}"
    using Cons.prems(3) st by simp
  have step: "putProcess pm k acc = Inr (acc @ process_fields k st)"
    by (rule putProcess_fresh[OF st f])
  have inv: "\<forall>k' \<in> set ks.
      fst ` set (acc @ process_fields k st) \<inter> fst ` set (process_fields k' (the (map_of pm k'))) = {}"
  proof
    fix k' assume k': "k' \<in> set ks"
    then have "k \<noteq> k'" using Cons.prems(1) by auto
    then have "fst ` set (process_fields k st) \<inter> fst ` set (process_fields k' (the (map_of pm k'))) = {}"
      by (rule process_fields_disjoint)
    moreover have "fst ` set acc \<inter> fst ` set (process_fields k' (the (map_of pm k'))) = {}"
      using Cons.prems(3) k' by simp
    ultimately show "fst ` set (acc @ process_fields k st) \<inter> fst ` set (process_fields k' (the (map_of pm k'))) = {}"
      by (simp add: image_Un Int_Un_distrib2)
  qed
  have "forEach ks (putProcess pm) (acc @ process_fields k st) =
          Inr ((acc @ process_fields k st) @ concat (map (\<lambda>k. process_fields k (the (map_of pm k))) ks))"
    using Cons.prems(1,2) inv by (intro Cons.IH) simp_all
  then show ?case using step st by simp
qed

lemma forEach_distinct:
  "distinct (map fst acc) \<Longrightarrow> forEach ks (putProcess pm) acc = Inr out \<Longrightarrow> distinct (map fst out)"
proof (induction ks arbitrary: acc)
  case Nil
  then show ?case by simp
next
  case (Cons k ks)
  then obtain acc' where s: "putProcess pm k acc = Inr acc'" and r: "forEach ks (putProcess pm) acc' = Inr out"
    by (auto split: sum.splits)
  have "distinct (map fst acc')" using s Cons.prems(1)
    by (auto simp add: putProcess_def distinct_update split: option.splits)
  then show ?case using Cons.IH r by blast
qed

lemma set_update_subset: "set (AList.update k v al) \<subseteq> insert (k, v) (set al)"
  by (induction al) auto

lemma fold_update_values:
  "\<forall>x \<in> set acc. P (snd x) \<Longrightarrow> \<forall>e. P (g e) \<Longrightarrow>
   \<forall>x \<in> set (fold (\<lambda>e. AList.update (f e) (g e)) es acc). P (snd x)"
proof (induction es arbitrary: acc)
  case Nil
  then show ?case by simp
next
  case (Cons e es)
  have "\<forall>x \<in> set (AList.update (f e) (g e) acc). P (snd x)"
    using Cons.prems set_update_subset[of "f e" "g e" acc] by auto
  then show ?case using Cons.IH Cons.prems(2) by simp
qed

lemma generateProcessMap_resources:
  "\<forall>x \<in> set (generateProcessMap processList). resources (snd x) \<noteq> None"
  unfolding generateProcessMap_def
  by (rule fold_update_values) (simp_all add: ProcessState_new_def)

lemma sendProcessList_batch:
  "forEach (map fst (generateProcessMap processList)) (putProcess (generateProcessMap processList)) [] =
     Inr (concat (map (\<lambda>(identity, st). process_fields identity st) (generateProcessMap processList)))"
proof -
  let ?pm = "generateProcessMap processList"
  have d: "distinct (map fst ?pm)" by (rule generateProcessMap_distinct)
  have r: "\<forall>k \<in> set (map fst ?pm). \<exists>st r. map_of ?pm k = Some st \<and> resources st = Some r"
  proof
    fix k assume "k \<in> set (map fst ?pm)"
    then obtain st where m: "(k, st) \<in> set ?pm" by auto
    then have "map_of ?pm k = Some st" using d by simp
    moreover have "resources st \<noteq> None" using generateProcessMap_resources m by fastforce
    ultimately show "\<exists>st r. map_of ?pm k = Some st \<and> resources st = Some r" by auto
  qed
  have "forEach (map fst ?pm) (putProcess ?pm) [] =
          Inr ([] @ concat (map (\<lambda>k. process_fields k (the (map_of ?pm k))) (map fst ?pm)))"
    using d r by (intro forEach_putProcess) simp_all
  moreover have "map (\<lambda>k. process_fields k (the (map_of ?pm k))) (map fst ?pm) =
                 map (\<lambda>(identity, st). process_fields identity st) (map (\<lambda>k. (k, the (map_of ?pm k))) (map fst ?pm))"
    by simp
  ultimately show ?thesis by (simp only: entries_by_key[OF d] append_Nil)
qed

lemma getPM2State_resources:
  "getPM2State env readFile Number_trim stat = Inr st \<Longrightarrow> \<exists>r. resources st = Some r"
  by (auto simp add: getPM2State_def Let_def ProcessState_new_def
      split: sum.splits option.splits if_splits)

lemma sendPM2Status_batch:
  "resources st = Some r \<Longrightarrow>
   sendPM2Status m (Inr st) =
     ([[(''pm2.'' @ ''status'', Str (status st)), (''pm2.'' @ ''cpu'', Num (cpu r)),
        (''pm2.'' @ ''memory'', Num (memory r)),
        (''pm2.'' @ ''pid'', case pid st of None \<Rightarrow> Undefined | Some n \<Rightarrow> Num n)]],
      case sender (dataProvider m)
             [(''pm2.'' @ ''status'', Str (status st)), (''pm2.'' @ ''cpu'', Num (cpu r)),
              (''pm2.'' @ ''memory'', Num (memory r)),
              (''pm2.'' @ ''pid'', case pid st of None \<Rightarrow> Undefined | Some n \<Rightarrow> Num n)] of
        Some e \<Rightarrow> Inl e
      | None \<Rightarrow> Inr ())"
  by (simp add: sendPM2Status_def getManagerKey_def of_property_def send_def Let_def)

text \<open>
  Claim C6. Given the answer of \<open>list\<close>, \<open>sendProcessList\<close> hands exactly one batch
  to the sender of the data provider, and the outcome of the call is what the sender
  answers to that batch: an error rejects the call, no error fulfils it. The batch
  holds, for each identity of the fresh process map, in its order, the four keys
  \<open>pm2.processes[\<close>identity\<open>,\<close>field\<open>]\<close> for the fields status, cpu, memory and
  restarts, each mapped to the value of that field; no key occurs twice and there is
  no other key. \<open>sendPM2Status\<close> likewise hands the sender one batch, with exactly
  the keys \<open>pm2.status\<close>, \<open>pm2.cpu\<close>, \<open>pm2.memory\<close> and \<open>pm2.pid\<close>, mapped to
  the fields of the supervisor's state, and ends as the sender answers.
\<close>

theorem report_keys_exact:
  "sendProcessList m (Inr processList) =
     ([concat (map (\<lambda>(identity, st). process_fields identity st)
                (generateProcessMap processList))],
      case sender (dataProvider m)
             (concat (map (\<lambda>(identity, st). process_fields identity st)
                        (generateProcessMap processList))) of
        Some e \<Rightarrow> Inl e
      | None \<Rightarrow> Inr ())
   \<and> distinct (map fst
        (concat (map (\<lambda>(identity, st). process_fields identity st) (generateProcessMap processList))))
   \<and> (getPM2State env readFile Number_trim stat = Inr st \<longrightarrow>
        (\<exists>r. resources st = Some r
           \<and> sendPM2Status m (Inr st) =
               ([[(''pm2.'' @ ''status'', Str (status st)), (''pm2.'' @ ''cpu'', Num (cpu r)),
                  (''pm2.'' @ ''memory'', Num (memory r)),
                  (''pm2.'' @ ''pid'', case pid st of None \<Rightarrow> Undefined | Some n \<Rightarrow> Num n)]],
                case sender (dataProvider m)
                       [(''pm2.'' @ ''status'', Str (status st)),
                        (''pm2.'' @ ''cpu'', Num (cpu r)),
                        (''pm2.'' @ ''memory'', Num (memory r)),
                        (''pm2.'' @ ''pid'',
                           case pid st of None \<Rightarrow> Undefined | Some n \<Rightarrow> Num n)] of
                  Some e \<Rightarrow> Inl e
                | None \<Rightarrow> Inr ())))"
proof -
  let ?b = "concat (map (\<lambda>(identity, st). process_fields identity st) (generateProcessMap processList))"
  have b: "forEach (map fst (generateProcessMap processList))
             (putProcess (generateProcessMap processList)) [] = Inr ?b"
    by (rule sendProcessList_batch)
  have 1: "sendProcessList m (Inr processList) =
             ([?b], case sender (dataProvider m) ?b of Some e \<Rightarrow> Inl e | None \<Rightarrow> Inr ())"
    by (simp add: sendProcessList_def getProcessMap_def b send_def)
  have 2: "distinct (map fst ?b)"
    using forEach_distinct[OF _ b] by simp
  have 3: "\<exists>r. resources st = Some r
           \<and> sendPM2Status m (Inr st) =
               ([[(''pm2.'' @ ''status'', Str (status st)), (''pm2.'' @ ''cpu'', Num (cpu r)),
                  (''pm2.'' @ ''memory'', Num (memory r)),
                  (''pm2.'' @ ''pid'', case pid st of None \<Rightarrow> Undefined | Some n \<Rightarrow> Num n)]],
                case sender (dataProvider m)
                       [(''pm2.'' @ ''status'', Str (status st)),
                        (''pm2.'' @ ''cpu'', Num (cpu r)),
                        (''pm2.'' @ ''memory'', Num (memory r)),
                        (''pm2.'' @ ''pid'',
                           case pid st of None \<Rightarrow> Undefined | Some n \<Rightarrow> Num n)] of
                  Some e \<Rightarrow> Inl e
                | None \<Rightarrow> Inr ())"
    if g: "getPM2State env readFile Number_trim stat = Inr st"
  proof -
    from getPM2State_resources[OF g] obtain r where r: "resources st = Some r" ..
    show ?thesis using r sendPM2Status_batch[OF r, of m] by blast
  qed
  show ?thesis using 1 2 3 by blast
qed

text \<open>
  A monitor whose transport refuses every batch without the key \<open>pm2.status\<close>: the
  process list of \<open>web-0\<close> is handed over and refused, the state of the running
  supervisor is handed over and accepted.
\<close>

theorem report_keys_exact_witness:
  "sendProcessList
      (PM2ZabbixMonitor_new PM2Tracker_new (ZabbixDataProvider_new wants_pm2_status None) None)
      (Inr [web 0])
     = ([[(''pm2.processes[web-0,status]'', Str ''online''),
          (''pm2.processes[web-0,cpu]'', Num 1.5),
          (''pm2.processes[web-0,memory]'', Num 1024),
          (''pm2.processes[web-0,restarts]'', Num 0)]],
        Inl Failure)
   \<and> sendPM2Status
      (PM2ZabbixMonitor_new PM2Tracker_new (ZabbixDataProvider_new wants_pm2_status None) None)
      (getPM2State home pid_file parsed running)
     = ([[(''pm2.status'', Str ''online''), (''pm2.cpu'', Num 2), (''pm2.memory'', Num 4096),
          (''pm2.pid'', Num 4242)]],
        Inr ())"
proof -
  let ?m = "PM2ZabbixMonitor_new PM2Tracker_new (ZabbixDataProvider_new wants_pm2_status None) None"
  let ?st = "\<lparr>name = ''PM2'', status = ''online'', resources = Some \<lparr>cpu = 2, memory = 4096\<rparr>,
              restarts = Some 0, pid = Some 4242\<rparr>"
  have s: "sender (dataProvider ?m) = wants_pm2_status"
    by (simp add: PM2ZabbixMonitor_new_def ZabbixDataProvider_new_def Let_def)
  have g: "generateProcessMap [web 0] =
      [(''web-0'', \<lparr>name = ''web'', status = ''online'',
           resources = Some \<lparr>cpu = 1.5, memory = 1024\<rparr>, restarts = Some 0, pid = None\<rparr>)]"
    by (simp add: generateProcessMap_def web_def getProcessID_def string_of_nat.simps digit_def
        ProcessState_new_def)
  have h: "getPM2State home pid_file parsed running = Inr ?st"
    by (simp add: getPM2State_def PM2_HOME_dir_def home_def pid_file_def parsed_def running_def
          Let_def ProcessState_new_def)
  note c = report_keys_exact [of ?m "[web 0]" home pid_file parsed running ?st]
  from c have "sendProcessList ?m (Inr [web 0]) =
     ([concat (map (\<lambda>(identity, st). process_fields identity st) (generateProcessMap [web 0]))],
      case sender (dataProvider ?m)
             (concat (map (\<lambda>(identity, st). process_fields identity st)
                        (generateProcessMap [web 0]))) of
        Some e \<Rightarrow> Inl e
      | None \<Rightarrow> Inr ())"
    by (rule conjunct1)
  then have 1: "sendProcessList ?m (Inr [web 0])
     = ([[(''pm2.processes[web-0,status]'', Str ''online''),
          (''pm2.processes[web-0,cpu]'', Num 1.5),
          (''pm2.processes[web-0,memory]'', Num 1024),
          (''pm2.processes[web-0,restarts]'', Num 0)]],
        Inl Failure)"
    unfolding s g by (simp add: process_fields_def wants_pm2_status_def)
  from c h have "\<exists>r. resources ?st = Some r
           \<and> sendPM2Status ?m (Inr ?st) =
               ([[(''pm2.'' @ ''status'', Str (status ?st)), (''pm2.'' @ ''cpu'', Num (cpu r)),
                  (''pm2.'' @ ''memory'', Num (memory r)),
                  (''pm2.'' @ ''pid'', case pid ?st of None \<Rightarrow> Undefined | Some n \<Rightarrow> Num n)]],
                case sender (dataProvider ?m)
                       [(''pm2.'' @ ''status'', Str (status ?st)),
                        (''pm2.'' @ ''cpu'', Num (cpu r)),
                        (''pm2.'' @ ''memory'', Num (memory r)),
                        (''pm2.'' @ ''pid'',
                           case pid ?st of None \<Rightarrow> Undefined | Some n \<Rightarrow> Num n)] of
                  Some e \<Rightarrow> Inl e
                | None \<Rightarrow> Inr ())"
    by blast
  then have 2: "sendPM2Status ?m (getPM2State home pid_file parsed running)
     = ([[(''pm2.status'', Str ''online''), (''pm2.cpu'', Num 2), (''pm2.memory'', Num 4096),
          (''pm2.pid'', Num 4242)]],
        Inr ())"
    unfolding h s by (auto simp add: wants_pm2_status_def)
  show ?thesis using 1 2 by simp
qed

section \<open>The state of the supervisor\<close>

text \<open>
  When the PID read from the PID file refers to a process that cannot be found (the
  usage query fails with \<open>ENOENT\<close>, or answers \<open>null\<close>), \<open>getPM2State\<close> fulfils with
  the synthetic offline state, and \<open>sendPM2Status\<close> hands the sender one batch with
  \<open>pm2.status\<close> = \<open>offline\<close>, \<open>pm2.cpu\<close> = 0, \<open>pm2.memory\<close> = 0 and
  \<open>pm2.pid\<close> = 0.
\<close>

lemma getPM2State_process_not_found:
  assumes "readFile (PM2_HOME_dir env @ ''/pm2.pid'') = Inr content"
    and "stat (Number_trim content) = Inl (ErrorWithCode ''ENOENT'') \<or> stat (Number_trim content) = Inr None"
  shows "getPM2State env readFile Number_trim stat =
           Inr \<lparr>name = ''PM2'', status = ''offline'', resources = Some \<lparr>cpu = 0, memory = 0\<rparr>,
                restarts = Some 0, pid = Some 0\<rparr>"
  using assms by (auto simp add: getPM2State_def Let_def ProcessState_new_def)

lemma sendPM2Status_process_not_found:
  assumes "readFile (PM2_HOME_dir env @ ''/pm2.pid'') = Inr content"
    and "stat (Number_trim content) = Inl (ErrorWithCode ''ENOENT'') \<or> stat (Number_trim content) = Inr None"
  shows "sendPM2Status m (getPM2State env readFile Number_trim stat) =
           ([[(''pm2.status'', Str ''offline''), (''pm2.cpu'', Num 0), (''pm2.memory'', Num 0),
              (''pm2.pid'', Num 0)]],
            case sender (dataProvider m)
                   [(''pm2.status'', Str ''offline''), (''pm2.cpu'', Num 0),
                    (''pm2.memory'', Num 0), (''pm2.pid'', Num 0)] of
              Some e \<Rightarrow> Inl e
            | None \<Rightarrow> Inr ())"
proof -
  have g: "getPM2State env readFile Number_trim stat =
           Inr \<lparr>name = ''PM2'', status = ''offline'', resources = Some \<lparr>cpu = 0, memory = 0\<rparr>,
                restarts = Some 0, pid = Some 0\<rparr>"
    using assms by (rule getPM2State_process_not_found)
  show ?thesis
    unfolding g
    by (simp add: sendPM2Status_def getManagerKey_def of_property_def send_def Let_def)
qed

text \<open>
  Claim C3 says that whenever the supervisor is not running, be it that the PID file
  cannot be found or that the PID read from it has no process, \<open>getPM2State\<close> fulfils
  with the synthetic offline state and \<open>sendPM2Status\<close> sends status \<open>offline\<close>,
  cpu 0, memory 0 and pid 0. The code does so for a PID without a process, as shown
  above, and misses the PID file that cannot be found: the handler that turns
  \<open>ENOENT\<close> into the offline state is attached to the usage query alone, so the
  rejected promise of \<open>readFile\<close> passes it by. With no PID file, whatever the
  usage query would answer and whatever the transport, \<open>getPM2State\<close> is rejected
  with the error of the read, and \<open>sendPM2Status\<close> hands the sender nothing and is
  rejected too.
\<close>

theorem getPM2State_missing_pid_file_rejects:
  "getPM2State home no_pid_file Number_trim stat = Inl (ErrorWithCode ''ENOENT'')
   \<and> sendPM2Status m (getPM2State home no_pid_file Number_trim stat)
      = ([], Inl (ErrorWithCode ''ENOENT''))"
  by (simp add: getPM2State_def PM2_HOME_dir_def home_def no_pid_file_def sendPM2Status_def)

section \<open>Stopping the tracker\<close>




lemma deliver_open:
  "busSocketOpen client \<Longrightarrow> bus t \<noteq> None \<Longrightarrow> deliver client t event = handleProcessEvent t event"
  by (auto simp add: deliver_def dispatch_def)



section \<open>The pid of a state\<close>

text \<open>
  Claim C9, as stated, fails on the code. \<open>generateProcessMap\<close> gives the constructor
  no \<open>pid\<close>, so the state of a listed process has none: it is not a non-negative
  integer.
\<close>

theorem listed_process_has_no_pid:
  "map_option (non_negative_integer \<circ> pid) (map_of (generateProcessMap [web 0]) ''web-0'')
     = Some False"
  by (simp add: generateProcessMap_def web_def getProcessID_def string_of_nat.simps digit_def
        ProcessState_new_def non_negative_integer_def)

lemma generateProcessMap_pid:
  "\<forall>x \<in> set (generateProcessMap processList). pid (snd x) = None"
  unfolding generateProcessMap_def
  by (rule fold_update_values) (simp_all add: ProcessState_new_def)

text \<open>
  Claim C9, amended. Only the states of the supervisor have a \<open>pid\<close>: a state
  fulfilled by \<open>getPM2State\<close> has pid 0 when its status is \<open>offline\<close> and the number
  read from the PID file when its status is \<open>online\<close>. Every state of a map built
  from a process list has no \<open>pid\<close>, and a state built from a bus event has the
  \<open>pid\<close> of the event's process, none when that has none.
\<close>

theorem pid_only_on_supervisor_states:
  "(\<forall>x \<in> set (generateProcessMap processList). pid (snd x) = None)
   \<and> pid (ProcessState_new (process e)) = pid (process e)
   \<and> (getPM2State env readFile Number_trim stat = Inr st \<longrightarrow>
        (status st = ''offline'' \<and> pid st = Some 0)
        \<or> (status st = ''online'' \<and>
            (\<exists>content. readFile (PM2_HOME_dir env @ ''/pm2.pid'') = Inr content \<and> pid st = Some (Number_trim content))))"
proof -
  have "getPM2State env readFile Number_trim stat = Inr st \<longrightarrow>
        (status st = ''offline'' \<and> pid st = Some 0)
        \<or> (status st = ''online'' \<and>
            (\<exists>content. readFile (PM2_HOME_dir env @ ''/pm2.pid'') = Inr content \<and> pid st = Some (Number_trim content)))"
    by (auto simp add: getPM2State_def Let_def ProcessState_new_def
        split: sum.splits option.splits if_splits)
  then show ?thesis using generateProcessMap_pid by (simp add: ProcessState_new_def)
qed

theorem pid_only_on_supervisor_states_witness:
  "pid (snd (hd (generateProcessMap [web 0]))) = None
   \<and> getPM2State home pid_file parsed no_such_process =
       Inr \<lparr>name = ''PM2'', status = ''offline'', resources = Some \<lparr>cpu = 0, memory = 0\<rparr>,
            restarts = Some 0, pid = Some 0\<rparr>
   \<and> getPM2State home pid_file parsed running =
       Inr \<lparr>name = ''PM2'', status = ''online'', resources = Some \<lparr>cpu = 2, memory = 4096\<rparr>,
            restarts = Some 0, pid = Some 4242\<rparr>"
proof -
  have g: "generateProcessMap [web 0] =
      [(''web-0'', \<lparr>name = ''web'', status = ''online'',
           resources = Some \<lparr>cpu = 1.5, memory = 1024\<rparr>, restarts = Some 0, pid = None\<rparr>)]"
    by (simp add: generateProcessMap_def web_def getProcessID_def string_of_nat.simps digit_def
        ProcessState_new_def)
  have off: "getPM2State home pid_file parsed no_such_process =
       Inr \<lparr>name = ''PM2'', status = ''offline'', resources = Some \<lparr>cpu = 0, memory = 0\<rparr>,
            restarts = Some 0, pid = Some 0\<rparr>"
    by (simp add: getPM2State_def PM2_HOME_dir_def home_def pid_file_def parsed_def no_such_process_def Let_def
          ProcessState_new_def)
  have on: "getPM2State home pid_file parsed running =
       Inr \<lparr>name = ''PM2'', status = ''online'', resources = Some \<lparr>cpu = 2, memory = 4096\<rparr>,
            restarts = Some 0, pid = Some 4242\<rparr>"
    by (simp add: getPM2State_def PM2_HOME_dir_def home_def pid_file_def parsed_def running_def Let_def
          ProcessState_new_def)
  from pid_only_on_supervisor_states [of "[web 0]"] have "\<forall>x \<in> set (generateProcessMap [web 0]). pid (snd x) = None"
    by (rule conjunct1)
  then have "pid (snd (hd (generateProcessMap [web 0]))) = None"
    unfolding g by simp
  then show ?thesis using off on by simp
qed

end
